theory Spec2Isabelle
  imports Main "HOL-Library.Sublist"
begin

section \<open>Values of the host language\<close>

text \<open>
  Document metadata and the side-channel metadata of a message are typed
  \<^verbatim>\<open>Record<string, any>\<close> in the source, so a metadata entry is an arbitrary
  JavaScript value. The fragment below covers the primitive values: \<open>undefined\<close>
  (also the result of reading an absent property), \<open>null\<close>, booleans, integral
  numbers and strings. A number is shown in plain decimal, which is what a template
  literal shows for the safe integers (of magnitude below \<open>2 ^ 53\<close>); fractions,
  \<open>NaN\<close> and the exponent notation of larger numbers are outside the fragment.
\<close>

datatype jsval = JUndefined | JNull | JBool bool | JNum int | JStr string

text \<open>Truthiness, as tested by \<^verbatim>\<open>||\<close> and \<^verbatim>\<open>!\<close>.\<close>

fun truthy :: "jsval \<Rightarrow> bool" where
  "truthy JUndefined = False"
| "truthy JNull = False"
| "truthy (JBool b) = b"
| "truthy (JNum n) = (n \<noteq> 0)"
| "truthy (JStr s) = (s \<noteq> [])"

text \<open>\<^verbatim>\<open>a || b\<close> and \<^verbatim>\<open>a ?? b\<close>.\<close>

definition js_or :: "jsval \<Rightarrow> jsval \<Rightarrow> jsval" where
  "js_or a b = (if truthy a then a else b)"

fun nullish :: "jsval \<Rightarrow> bool" where
  "nullish JUndefined = True"
| "nullish JNull = True"
| "nullish _ = False"

definition js_coalesce :: "jsval \<Rightarrow> jsval \<Rightarrow> jsval" where
  "js_coalesce a b = (if nullish a then b else a)"

text \<open>Decimal rendering of a number, and the string conversion of a template literal.\<close>

definition digit_char :: "nat \<Rightarrow> char" where
  "digit_char n = char_of (48 + n)"

fun string_of_nat :: "nat \<Rightarrow> string" where
  "string_of_nat n =
     (if n < 10 then [digit_char n]
      else string_of_nat (n div 10) @ [digit_char (n mod 10)])"

declare string_of_nat.simps [simp del]

definition string_of_int :: "int \<Rightarrow> string" where
  "string_of_int i =
     (if i < 0 then CHR ''-'' # string_of_nat (nat (- i)) else string_of_nat (nat i))"

fun to_string :: "jsval \<Rightarrow> string" where
  "to_string JUndefined = ''undefined''"
| "to_string JNull = ''null''"
| "to_string (JBool b) = (if b then ''true'' else ''false'')"
| "to_string (JNum n) = string_of_int n"
| "to_string (JStr s) = s"

section \<open>Conversation turns and the message normalizer\<close>

text \<open>
  A message. \<open>normalizeMessages\<close> reads three parts of it: the tag returned by
  \<^verbatim>\<open>_getType()\<close>, the content and the \<^verbatim>\<open>additional_kwargs\<close> mapping. The
  message class is declared by the message library, outside the graph module; a message
  of that class carries further fields, of which the record keeps the identifier, the
  top-level name, the response metadata and the tool calls.
\<close>

record message =
  msg_type :: string
  content :: string
  additional_kwargs :: "string \<rightharpoonup> jsval"
  msg_id :: "string option"
  msg_name :: "string option"
  response_metadata :: "string \<rightharpoonup> jsval"
  tool_calls :: "string list"

text \<open>
  The two constructors as the source calls them, with \<open>content\<close> and
  \<open>additional_kwargs\<close> only: every field that is not passed gets its default.
\<close>

definition HumanMessage :: "string \<Rightarrow> (string \<rightharpoonup> jsval) \<Rightarrow> message" where
  "HumanMessage c kw =
     \<lparr>msg_type = ''human'', content = c, additional_kwargs = kw, msg_id = None,
      msg_name = None, response_metadata = Map.empty, tool_calls = []\<rparr>"

definition AIMessage :: "string \<Rightarrow> (string \<rightharpoonup> jsval) \<Rightarrow> message" where
  "AIMessage c kw =
     \<lparr>msg_type = ''ai'', content = c, additional_kwargs = kw, msg_id = None,
      msg_name = None, response_metadata = Map.empty, tool_calls = []\<rparr>"

text \<open>The body of the callback given to \<^verbatim>\<open>messages.map\<close>.\<close>

definition normalizeMessage :: "message \<Rightarrow> message" where
  "normalizeMessage m =
     (let type = msg_type m;
          additionalKwargs =
            (case additional_kwargs m ''name'' of
               None \<Rightarrow> additional_kwargs m
             | Some _ \<Rightarrow> (additional_kwargs m)(''name'' := None))
      in if type = ''human'' then HumanMessage (content m) additionalKwargs
         else if type = ''ai'' then AIMessage (content m) additionalKwargs
         else HumanMessage (content m) additionalKwargs)"

definition normalizeMessages :: "message list \<Rightarrow> message list" where
  "normalizeMessages ms = map normalizeMessage ms"

section \<open>Documents and the deduplication key\<close>

text \<open>
  A retrieved document: its text and its metadata. The source reads three paths of the
  metadata, each through optional chaining: \<^verbatim>\<open>metadata?.source\<close>,
  \<^verbatim>\<open>metadata?.filename\<close> and \<^verbatim>\<open>metadata?.loc?.pageNumber\<close>. A missing
  \<open>metadata\<close> or \<open>loc\<close> object is \<open>None\<close>; a missing property is \<open>JUndefined\<close>.
\<close>

record doc_loc =
  pageNumber :: jsval

record doc_metadata =
  source :: jsval
  filename :: jsval
  loc :: "doc_loc option"

record document =
  pageContent :: string
  metadata :: "doc_metadata option"

definition metadata_source :: "document \<Rightarrow> jsval" where
  "metadata_source doc = (case metadata doc of None \<Rightarrow> JUndefined | Some m \<Rightarrow> source m)"

definition metadata_filename :: "document \<Rightarrow> jsval" where
  "metadata_filename doc = (case metadata doc of None \<Rightarrow> JUndefined | Some m \<Rightarrow> filename m)"

definition metadata_pageNumber :: "document \<Rightarrow> jsval" where
  "metadata_pageNumber doc =
     (case metadata doc of
        None \<Rightarrow> JUndefined
      | Some m \<Rightarrow> (case loc m of None \<Rightarrow> JUndefined | Some l \<Rightarrow> pageNumber l))"

text \<open>The three local constants of the filter callback: \<open>source\<close>, \<open>page\<close> and \<open>key\<close>.\<close>

definition doc_source :: "document \<Rightarrow> jsval" where
  "doc_source doc =
     js_or (js_or (metadata_source doc) (metadata_filename doc)) (JStr ''unknown-source'')"

definition doc_page :: "document \<Rightarrow> jsval" where
  "doc_page doc = js_coalesce (metadata_pageNumber doc) (JStr ''unknown-page'')"

definition doc_key :: "document \<Rightarrow> string" where
  "doc_key doc = to_string (doc_source doc) @ ''::'' @ to_string (doc_page doc)"

text \<open>
  The identity of a document: the pair of the two values that the key is rendered from.
\<close>

definition doc_identity :: "document \<Rightarrow> jsval \<times> jsval" where
  "doc_identity doc = (doc_source doc, doc_page doc)"

text \<open>
  Documents as the loaders produce them: the source (or, failing that, the filename) is a
  string or is absent, and the page number is a safe integer or is absent.
\<close>

fun is_string :: "jsval \<Rightarrow> bool" where
  "is_string (JStr s) = True"
| "is_string _ = False"

fun is_safe_integer :: "jsval \<Rightarrow> bool" where
  "is_safe_integer (JNum n) = (- 9007199254740991 \<le> n \<and> n \<le> 9007199254740991)"
| "is_safe_integer _ = False"

definition typed_doc :: "document \<Rightarrow> bool" where
  "typed_doc doc =
     (is_string (doc_source doc) \<and>
      (nullish (metadata_pageNumber doc) \<or> is_safe_integer (metadata_pageNumber doc)))"

text \<open>
  \<^verbatim>\<open>response.filter(...)\<close> with the mutable set \<open>seen\<close> threaded through the
  calls of the callback, in input order.
\<close>

fun filter_seen :: "string set \<Rightarrow> document list \<Rightarrow> document list" where
  "filter_seen seen [] = []"
| "filter_seen seen (doc # docs) =
     (let key = doc_key doc
      in if key \<in> seen then filter_seen seen docs
         else doc # filter_seen (insert key seen) docs)"

definition uniqueDocuments :: "document list \<Rightarrow> document list" where
  "uniqueDocuments response = filter_seen {} response"

section \<open>Workflow state, updates and external collaborators\<close>

text \<open>
  The state, with the fields that the nodes read. Its declaration is not part of the
  graph module; \<open>routeQuery\<close> tests \<open>route\<close> for falsiness, compares it with two
  string literals and has a branch for every other value, so \<open>route\<close> is a string that
  may be unset (\<open>None\<close>).
\<close>

record agent_state =
  query :: string
  route :: "string option"
  documents :: "document list"
  messages :: "message list"

text \<open>A node returns a partial update: a key that the node does not return is \<open>None\<close>.\<close>

record state_update =
  upd_route :: "string option"
  upd_documents :: "document list option"
  upd_messages :: "message list option"

text \<open>
  Modelled from the spec: the state reducers, declared outside the graph module. The
  router sets \<open>route\<close>, the retrieval node sets \<open>documents\<close>, and terminal nodes append
  their turns to \<open>messages\<close>; a key absent from the update leaves its field as it is.
\<close>

definition apply_update :: "agent_state \<Rightarrow> state_update \<Rightarrow> agent_state" where
  "apply_update s u =
     \<lparr>query = query s,
      route = (case upd_route u of None \<Rightarrow> route s | Some r \<Rightarrow> Some r),
      documents = (case upd_documents u of None \<Rightarrow> documents s | Some ds \<Rightarrow> ds),
      messages = (case upd_messages u of None \<Rightarrow> messages s | Some ms \<Rightarrow> messages s @ ms)\<rparr>"

text \<open>
  The structured response of the router model, with the two fields of the zod schema.
  Validation against the schema happens inside the model call; a reply that fails it is
  a failure of that external call.
\<close>

record router_response =
  resp_route :: string
  resp_directAnswer :: "string option"

text \<open>
  The external collaborators, taken as parameters: the configured model name, the chat
  model (by model name) invoked on a message list or, with the schema, on a prompt text,
  the retriever, the two prompt templates and \<open>formatDocs\<close>.
\<close>

record env =
  queryModel :: string
  model_invoke :: "string \<Rightarrow> message list \<Rightarrow> message"
  model_invoke_structured :: "string \<Rightarrow> string \<Rightarrow> router_response"
  retriever_invoke :: "string \<Rightarrow> document list"
  ROUTER_SYSTEM_PROMPT :: "string \<Rightarrow> string"
  RESPONSE_SYSTEM_PROMPT :: "string \<Rightarrow> string \<Rightarrow> string"
  formatDocs :: "document list \<Rightarrow> string"

text \<open>The external calls a node makes, in order.\<close>

datatype call =
    ModelInvoke string "message list"
  | ModelInvokeStructured string string
  | RetrieverInvoke string

datatype error = Error string

datatype node = N_checkQueryType | N_retrieveDocuments | N_generateResponse | N_directAnswer

section \<open>The nodes\<close>

definition checkQueryType :: "env \<Rightarrow> agent_state \<Rightarrow> state_update \<times> call list" where
  "checkQueryType e state =
     (let model = queryModel e;
          formattedPrompt = ROUTER_SYSTEM_PROMPT e (query state);
          response = model_invoke_structured e model formattedPrompt;
          r = resp_route response
      in (\<lparr>upd_route = Some r, upd_documents = None, upd_messages = None\<rparr>,
          [ModelInvokeStructured model formattedPrompt]))"

definition answerQueryDirectly :: "env \<Rightarrow> agent_state \<Rightarrow> state_update \<times> call list" where
  "answerQueryDirectly e state =
     (let model = queryModel e;
          userHumanMessage = HumanMessage (query state) Map.empty;
          input = normalizeMessages [userHumanMessage];
          response = model_invoke e model input
      in (\<lparr>upd_route = None, upd_documents = None,
           upd_messages = Some [userHumanMessage, response]\<rparr>,
          [ModelInvoke model input]))"

definition routeQuery :: "agent_state \<Rightarrow> error + node" where
  "routeQuery state =
     (case route state of
        None \<Rightarrow> Inl (Error ''Route is not set'')
      | Some r \<Rightarrow>
          if r = [] then Inl (Error ''Route is not set'')
          else if r = ''retrieve'' then Inr N_retrieveDocuments
          else if r = ''direct'' then Inr N_directAnswer
          else Inl (Error ''Invalid route''))"

definition retrieveDocuments :: "env \<Rightarrow> agent_state \<Rightarrow> state_update \<times> call list" where
  "retrieveDocuments e state =
     (let response = retriever_invoke e (query state)
      in (\<lparr>upd_route = None, upd_documents = Some (uniqueDocuments response),
           upd_messages = None\<rparr>,
          [RetrieverInvoke (query state)]))"

definition generateResponse :: "env \<Rightarrow> agent_state \<Rightarrow> state_update \<times> call list" where
  "generateResponse e state =
     (let context = formatDocs e (documents state);
          model = queryModel e;
          formattedPrompt = RESPONSE_SYSTEM_PROMPT e (query state) context;
          userHumanMessage = HumanMessage (query state) Map.empty;
          formattedPromptMessage = HumanMessage formattedPrompt Map.empty;
          messageHistory = normalizeMessages (messages state @ [formattedPromptMessage]);
          response = model_invoke e model messageHistory
      in (\<lparr>upd_route = None, upd_documents = None,
           upd_messages = Some [userHumanMessage, response]\<rparr>,
          [ModelInvoke model messageHistory]))"

section \<open>The graph\<close>

text \<open>
  One node of the graph run on a state: the node's update is applied and its external
  calls are returned.
\<close>

definition run_node :: "env \<Rightarrow> node \<Rightarrow> agent_state \<Rightarrow> agent_state \<times> call list" where
  "run_node e n s =
     (let (u, cs) =
            (case n of
               N_checkQueryType \<Rightarrow> checkQueryType e s
             | N_retrieveDocuments \<Rightarrow> retrieveDocuments e s
             | N_generateResponse \<Rightarrow> generateResponse e s
             | N_directAnswer \<Rightarrow> answerQueryDirectly e s)
      in (apply_update s u, cs))"

text \<open>
  The edges: from a node either to the next node (\<open>Some\<close>) or to the end (\<open>None\<close>);
  the edge out of \<open>checkQueryType\<close> is the conditional one, decided by \<open>routeQuery\<close>.
\<close>

definition next_node :: "node \<Rightarrow> agent_state \<Rightarrow> error + node option" where
  "next_node n s =
     (case n of
        N_checkQueryType \<Rightarrow>
          (case routeQuery s of Inl err \<Rightarrow> Inl err | Inr n' \<Rightarrow> Inr (Some n'))
      | N_retrieveDocuments \<Rightarrow> Inr (Some N_generateResponse)
      | N_generateResponse \<Rightarrow> Inr None
      | N_directAnswer \<Rightarrow> Inr None)"

text \<open>
  Running the graph from a node; the fuel bounds the number of nodes run, and running
  out of it is \<open>None\<close>. The graph is entered at \<open>checkQueryType\<close>.
\<close>

fun run_from :: "nat \<Rightarrow> env \<Rightarrow> node \<Rightarrow> agent_state \<Rightarrow> (error + agent_state \<times> call list) option" where
  "run_from 0 e n s = None"
| "run_from (Suc fuel) e n s =
     (let (s', cs) = run_node e n s
      in case next_node n s' of
           Inl err \<Rightarrow> Some (Inl err)
         | Inr None \<Rightarrow> Some (Inr (s', cs))
         | Inr (Some n') \<Rightarrow>
             (case run_from fuel e n' s' of
                None \<Rightarrow> None
              | Some (Inl err) \<Rightarrow> Some (Inl err)
              | Some (Inr (s'', cs')) \<Rightarrow> Some (Inr (s'', cs @ cs'))))"

definition graph_invoke :: "env \<Rightarrow> agent_state \<Rightarrow> (error + agent_state \<times> call list) option" where
  "graph_invoke e s = run_from 3 e N_checkQueryType s"

section \<open>Concrete inputs\<close>

text \<open>
  Collaborators for a run: a router that answers \<open>direct\<close>, a chat model that answers
  with one assistant turn, and a retriever that returns three documents of which the
  first two share source and page.
\<close>

definition example_docs :: "document list" where
  "example_docs =
     [\<lparr>pageContent = ''intro'', metadata = Some \<lparr>source = JStr ''reportA.pdf'',
         filename = JUndefined, loc = Some \<lparr>pageNumber = JNum 3\<rparr>\<rparr>\<rparr>,
      \<lparr>pageContent = ''intro again'', metadata = Some \<lparr>source = JStr ''reportA.pdf'',
         filename = JUndefined, loc = Some \<lparr>pageNumber = JNum 3\<rparr>\<rparr>\<rparr>,
      \<lparr>pageContent = ''annex'', metadata = Some \<lparr>source = JStr ''reportB.pdf'',
         filename = JUndefined, loc = None\<rparr>\<rparr>]"

definition example_env :: env where
  "example_env =
     \<lparr>queryModel = ''chat-model'',
      model_invoke = (\<lambda>m h. AIMessage ''Paris'' Map.empty),
      model_invoke_structured =
        (\<lambda>m p. \<lparr>resp_route = ''direct'', resp_directAnswer = None\<rparr>),
      retriever_invoke = (\<lambda>q. example_docs),
      ROUTER_SYSTEM_PROMPT = (\<lambda>q. ''Classify: '' @ q),
      RESPONSE_SYSTEM_PROMPT = (\<lambda>q c. c @ ''Question: '' @ q),
      formatDocs = (\<lambda>ds. concat (map pageContent ds))\<rparr>"

definition example_history :: "message list" where
  "example_history =
     [\<lparr>msg_type = ''system'', content = ''be brief'',
       additional_kwargs = [''name'' \<mapsto> JStr ''ops'', ''k'' \<mapsto> JNum 1],
       msg_id = Some ''m-1'', msg_name = Some ''ops'', response_metadata = Map.empty,
       tool_calls = []\<rparr>,
      \<lparr>msg_type = ''ai'', content = ''hello'', additional_kwargs = Map.empty,
       msg_id = Some ''m-2'', msg_name = None,
       response_metadata = [''model'' \<mapsto> JStr ''chat-model''],
       tool_calls = [''search'']\<rparr>]"

definition example_state :: agent_state where
  "example_state =
     \<lparr>query = ''What is the capital of France?'', route = None, documents = [],
      messages = []\<rparr>"

section \<open>The normalizer: roles, the name key, idempotence, frame\<close>

lemma normalizeMessage_type:
  "msg_type (normalizeMessage m) = (if msg_type m = ''ai'' then ''ai'' else ''human'')"
  by (simp add: normalizeMessage_def HumanMessage_def AIMessage_def Let_def)

lemma normalizeMessage_content: "content (normalizeMessage m) = content m"
  by (simp add: normalizeMessage_def HumanMessage_def AIMessage_def Let_def)

lemma normalizeMessage_kwargs:
  "additional_kwargs (normalizeMessage m) = (additional_kwargs m)(''name'' := None)"
  by (auto simp: normalizeMessage_def HumanMessage_def AIMessage_def Let_def
           split: option.splits)

text \<open>The fields that the source does not pass to the constructors come out as defaults.\<close>

lemma normalizeMessage_defaults:
  "msg_id (normalizeMessage m) = None"
  "msg_name (normalizeMessage m) = None"
  "response_metadata (normalizeMessage m) = Map.empty"
  "tool_calls (normalizeMessage m) = []"
  by (simp_all add: normalizeMessage_def HumanMessage_def AIMessage_def Let_def)

lemma normalizeMessage_idem: "normalizeMessage (normalizeMessage m) = normalizeMessage m"
  by (rule message.equality)
     (simp_all add: normalizeMessage_type normalizeMessage_content normalizeMessage_kwargs
        normalizeMessage_defaults)

lemma length_normalizeMessages: "length (normalizeMessages ms) = length ms"
  by (simp add: normalizeMessages_def)

lemma nth_normalizeMessages:
  "i < length ms \<Longrightarrow> normalizeMessages ms ! i = normalizeMessage (ms ! i)"
  by (simp add: normalizeMessages_def)

lemma example_history_nth:
  "length example_history = 2"
  "example_history ! 0 =
     \<lparr>msg_type = ''system'', content = ''be brief'',
      additional_kwargs = [''name'' \<mapsto> JStr ''ops'', ''k'' \<mapsto> JNum 1],
      msg_id = Some ''m-1'', msg_name = Some ''ops'', response_metadata = Map.empty,
      tool_calls = []\<rparr>"
  "example_history ! Suc 0 =
     \<lparr>msg_type = ''ai'', content = ''hello'', additional_kwargs = Map.empty,
      msg_id = Some ''m-2'', msg_name = None,
      response_metadata = [''model'' \<mapsto> JStr ''chat-model''],
      tool_calls = [''search'']\<rparr>"
  by (simp_all add: example_history_def)

text \<open>
  Claim C5. The normalizer returns one turn per input turn, in order. No output turn has
  a \<open>name\<close> key in its side-channel metadata (so the key is removed where it was present
  and is never introduced), every output role is one of \<open>human\<close> and \<open>ai\<close> (assistant),
  and the output role is \<open>ai\<close> exactly when the input role is \<open>ai\<close>: every other role
  becomes \<open>human\<close>.
\<close>

theorem normalizeMessages_name_and_role:
  "length (normalizeMessages ms) = length ms \<and>
   (\<forall>i < length ms.
      additional_kwargs (normalizeMessages ms ! i) ''name'' = None \<and>
      msg_type (normalizeMessages ms ! i) \<in> {''human'', ''ai''} \<and>
      (msg_type (normalizeMessages ms ! i) = ''ai'') = (msg_type (ms ! i) = ''ai'') \<and>
      (msg_type (ms ! i) \<noteq> ''ai'' \<longrightarrow> msg_type (normalizeMessages ms ! i) = ''human''))"
  by (simp add: length_normalizeMessages nth_normalizeMessages normalizeMessage_type
                normalizeMessage_kwargs)

theorem normalizeMessages_name_and_role_witness:
  "length (normalizeMessages example_history) = 2 \<and>
   additional_kwargs (example_history ! 0) ''name'' = Some (JStr ''ops'') \<and>
   additional_kwargs (normalizeMessages example_history ! 0) ''name'' = None \<and>
   msg_type (example_history ! 0) = ''system'' \<and>
   msg_type (normalizeMessages example_history ! 0) = ''human'' \<and>
   additional_kwargs (normalizeMessages example_history ! 1) ''name'' = None \<and>
   msg_type (normalizeMessages example_history ! 1) = ''ai''"
proof -
  note t = normalizeMessages_name_and_role [of example_history]
  have i: "0 < length example_history" "1 < length example_history"
    by (simp_all add: example_history_nth)
  have m: "msg_type (example_history ! 0) = ''system''"
    "msg_type (example_history ! 0) \<noteq> ''ai''"
    "msg_type (example_history ! 1) = ''ai''"
    "additional_kwargs (example_history ! 0) ''name'' = Some (JStr ''ops'')"
    by (simp_all add: example_history_nth)
  from t have "length (normalizeMessages example_history) = 2"
    by (simp add: example_history_nth)
  moreover from t i(1) m(2)
  have "additional_kwargs (normalizeMessages example_history ! 0) ''name'' = None"
    and "msg_type (normalizeMessages example_history ! 0) = ''human''"
    by blast+
  moreover from t i(2) m(3)
  have "additional_kwargs (normalizeMessages example_history ! 1) ''name'' = None"
    and "msg_type (normalizeMessages example_history ! 1) = ''ai''"
    by blast+
  ultimately show ?thesis using m by (simp only: simp_thms)
qed

text \<open>
  Claim C6. The normalizer is idempotent: normalizing a normalized sequence of turns
  gives the same sequence as normalizing once.
\<close>

theorem normalizeMessages_idempotent:
  "normalizeMessages (normalizeMessages ms) = normalizeMessages ms"
  by (simp add: normalizeMessages_def normalizeMessage_idem)

text \<open>
  Claim C7, as stated, at a concrete input. The second turn of the history below is an
  assistant turn with an identifier, response metadata and a tool call. Its role tag is
  already \<open>ai\<close> and it has no \<open>name\<close> key, yet the normalized turn differs from it: the
  identifier, the response metadata and the tool call are gone.
\<close>

theorem normalizeMessages_drops_fields_counterexample:
  "msg_type (example_history ! 1) = ''ai'' \<and>
   additional_kwargs (example_history ! 1) ''name'' = None \<and>
   msg_id (example_history ! 1) = Some ''m-2'' \<and>
   msg_id (normalizeMessages example_history ! 1) = None \<and>
   tool_calls (example_history ! 1) = [''search''] \<and>
   tool_calls (normalizeMessages example_history ! 1) = [] \<and>
   response_metadata (example_history ! 1) ''model'' = Some (JStr ''chat-model'') \<and>
   response_metadata (normalizeMessages example_history ! 1) ''model'' = None \<and>
   normalizeMessages example_history ! 1 \<noteq> example_history ! 1"
proof -
  have n: "normalizeMessages example_history ! Suc 0 =
           normalizeMessage (example_history ! Suc 0)"
    by (rule nth_normalizeMessages) (simp add: example_history_nth)
  have "msg_id (normalizeMessages example_history ! 1) \<noteq> msg_id (example_history ! 1)"
    by (simp add: n normalizeMessage_defaults example_history_nth)
  then have "normalizeMessages example_history ! 1 \<noteq> example_history ! 1"
    by auto
  then show ?thesis
    by (simp add: n normalizeMessage_defaults) (simp add: example_history_nth)
qed

text \<open>
  Claim C7, amended. For every turn of the input, the output turn at the same position
  has the same text content and the same metadata entry, present or absent, under every
  key other than \<open>name\<close>. Beside the role tag and the \<open>name\<close> key, the fields of a turn
  that the normalizer does not copy (the identifier, the top-level name, the response
  metadata and the tool calls) are not kept: the output turn has the defaults of a newly
  constructed turn there.
\<close>

theorem normalizeMessages_kept_and_reset:
  "\<forall>i < length ms.
     content (normalizeMessages ms ! i) = content (ms ! i) \<and>
     (\<forall>k. k \<noteq> ''name'' \<longrightarrow>
        additional_kwargs (normalizeMessages ms ! i) k = additional_kwargs (ms ! i) k) \<and>
     msg_id (normalizeMessages ms ! i) = None \<and>
     msg_name (normalizeMessages ms ! i) = None \<and>
     response_metadata (normalizeMessages ms ! i) = Map.empty \<and>
     tool_calls (normalizeMessages ms ! i) = []"
  by (simp add: nth_normalizeMessages normalizeMessage_content normalizeMessage_kwargs
      normalizeMessage_defaults)

theorem normalizeMessages_kept_and_reset_witness:
  "0 < length example_history \<and>
   content (normalizeMessages example_history ! 0) = ''be brief'' \<and>
   additional_kwargs (normalizeMessages example_history ! 0) ''k'' = Some (JNum 1) \<and>
   msg_id (normalizeMessages example_history ! 0) = None \<and>
   msg_name (normalizeMessages example_history ! 0) = None \<and>
   tool_calls (normalizeMessages example_history ! 0) = []"
proof -
  have i: "0 < length example_history"
    by (simp add: example_history_nth)
  have k: "''k'' \<noteq> ''name''"
    by simp
  have v: "content (example_history ! 0) = ''be brief''"
    "additional_kwargs (example_history ! 0) ''k'' = Some (JNum 1)"
    by (simp_all add: example_history_nth)
  from normalizeMessages_kept_and_reset [of example_history] i
  have "content (normalizeMessages example_history ! 0) = content (example_history ! 0)"
    and "\<forall>k. k \<noteq> ''name'' \<longrightarrow>
        additional_kwargs (normalizeMessages example_history ! 0) k =
        additional_kwargs (example_history ! 0) k"
    and "msg_id (normalizeMessages example_history ! 0) = None"
    and "msg_name (normalizeMessages example_history ! 0) = None"
    and "tool_calls (normalizeMessages example_history ! 0) = []"
    by blast+
  with i k v show ?thesis by simp
qed

section \<open>Deduplication in the retrieval node\<close>

lemma filter_seen_subseq: "subseq (filter_seen S ds) ds"
  by (induction ds arbitrary: S) (auto simp: Let_def)

lemma filter_seen_keys: "doc_key ` set (filter_seen S ds) = doc_key ` set ds - S"
  by (induction ds arbitrary: S) (auto simp: Let_def)

lemma filter_seen_distinct: "distinct (map doc_key (filter_seen S ds))"
proof (induction ds arbitrary: S)
  case Nil
  show ?case by simp
next
  case (Cons d ds)
  have "doc_key d \<notin> doc_key ` set (filter_seen (insert (doc_key d) S) ds)"
    by (simp add: filter_seen_keys)
  with Cons show ?case by (simp add: Let_def)
qed

lemma filter_seen_find:
  "find (\<lambda>d. doc_key d = k) (filter_seen S ds) =
     (if k \<in> S then None else find (\<lambda>d. doc_key d = k) ds)"
  by (induction ds arbitrary: S) (auto simp: Let_def)

lemma filter_seen_append:
  "filter_seen S (xs @ ys) = filter_seen S xs @ filter_seen (S \<union> doc_key ` set xs) ys"
proof (induction xs arbitrary: S)
  case Nil
  show ?case by simp
next
  case (Cons x xs)
  have "insert (doc_key x) S \<union> doc_key ` set xs = S \<union> doc_key ` set (x # xs)"
    by auto
  moreover have "doc_key x \<in> S \<Longrightarrow> S \<union> doc_key ` set xs = S \<union> doc_key ` set (x # xs)"
    by auto
  ultimately show ?case using Cons by (simp add: Let_def)
qed

lemma later_duplicate_dropped:
  assumes "doc_key d2 = doc_key d1"
  shows "uniqueDocuments (xs @ d1 # ys @ d2 # zs) = uniqueDocuments (xs @ d1 # ys @ zs)"
proof -
  have split: "xs @ d1 # ys @ d2 # zs = (xs @ d1 # ys) @ d2 # zs"
              "xs @ d1 # ys @ zs = (xs @ d1 # ys) @ zs"
    by simp_all
  have "doc_key d2 \<in> {} \<union> doc_key ` set (xs @ d1 # ys)"
    using assms by simp
  then show ?thesis
    unfolding uniqueDocuments_def split filter_seen_append [of _ "xs @ d1 # ys"]
    by (simp only: filter_seen.simps Let_def if_True)
qed

text \<open>
  The key \<open>source::page\<close> determines its two parts when the page text has no colon: the
  page is what follows the last colon of the key.
\<close>

lemma key_split_unique:
  assumes "CHR '':'' \<notin> set p1" and "CHR '':'' \<notin> set p2"
    and eq: "s1 @ ''::'' @ p1 = s2 @ ''::'' @ p2"
  shows "s1 = s2 \<and> p1 = p2"
proof -
  have t: "takeWhile (\<lambda>c. c \<noteq> CHR '':'') (rev p @ CHR '':'' # r) = rev p"
    if "CHR '':'' \<notin> set p" for p r
    using that by (auto simp: takeWhile_tail)
  have "rev (s1 @ ''::'' @ p1) = rev (s2 @ ''::'' @ p2)"
    using eq by simp
  then have r: "rev p1 @ CHR '':'' # (CHR '':'' # rev s1) =
                rev p2 @ CHR '':'' # (CHR '':'' # rev s2)"
    by simp
  have "rev p1 = rev p2"
    using t [OF assms(1), of "CHR '':'' # rev s1"] t [OF assms(2), of "CHR '':'' # rev s2"] r
    by simp
  then have "p1 = p2" by simp
  with eq show ?thesis by simp
qed

lemma digit_char_not_colon: "k < 10 \<Longrightarrow> digit_char k \<noteq> CHR '':''"
proof
  assume k: "k < 10" and "digit_char k = CHR '':''"
  then have "of_char (char_of (48 + k) :: char) = (of_char (CHR '':'') :: nat)"
    by (simp add: digit_char_def)
  then have "(48 + k) mod 256 = 58" by simp
  with k show False by simp
qed

lemma string_of_nat_no_colon: "CHR '':'' \<notin> set (string_of_nat n)"
proof (induction n rule: string_of_nat.induct)
  case (1 n)
  show ?case
  proof (cases "n < 10")
    case True
    then show ?thesis
      using digit_char_not_colon [of n] by (subst string_of_nat.simps) simp
  next
    case False
    have "n mod 10 < 10" by simp
    then have "digit_char (n mod 10) \<noteq> CHR '':''" by (rule digit_char_not_colon)
    with False 1 show ?thesis
      by (subst string_of_nat.simps) simp
  qed
qed

lemma string_of_int_no_colon: "CHR '':'' \<notin> set (string_of_int i)"
  by (simp add: string_of_int_def string_of_nat_no_colon)

text \<open>A page that is a number, or absent, is shown without a colon.\<close>

lemma numeric_page_no_colon:
  "metadata_pageNumber d = JNum n \<or> nullish (metadata_pageNumber d) \<Longrightarrow>
   CHR '':'' \<notin> set (to_string (doc_page d))"
  by (auto simp: doc_page_def js_coalesce_def string_of_int_no_colon)

lemma string_of_int_zero: "string_of_int 0 = ''0''"
  by code_simp

lemma string_of_int_three: "string_of_int 3 = ''3''"
  by code_simp

lemma doc_source_truthy: "truthy (doc_source d)"
  by (simp add: doc_source_def js_or_def)

lemma doc_source_fallback:
  "\<not> truthy (metadata_source d) \<Longrightarrow> \<not> truthy (metadata_filename d) \<Longrightarrow>
   doc_source d = JStr ''unknown-source''"
  by (simp add: doc_source_def js_or_def)

lemma doc_page_fallback:
  "nullish (metadata_pageNumber d) \<Longrightarrow> doc_page d = JStr ''unknown-page''"
  by (simp add: doc_page_def js_coalesce_def)

lemmas doc_key_unfold =
  uniqueDocuments_def doc_identity_def doc_key_def doc_source_def doc_page_def
  metadata_source_def metadata_filename_def metadata_pageNumber_def js_or_def js_coalesce_def

text \<open>Every key of the input is kept once, at its first document.\<close>

lemma uniqueDocuments_first_per_key:
  "subseq (uniqueDocuments ds) ds \<and>
   distinct (map doc_key (uniqueDocuments ds)) \<and>
   doc_key ` set (uniqueDocuments ds) = doc_key ` set ds \<and>
   (\<forall>k. find (\<lambda>d. doc_key d = k) (uniqueDocuments ds) = find (\<lambda>d. doc_key d = k) ds)"
  by (simp add: uniqueDocuments_def filter_seen_subseq filter_seen_distinct filter_seen_keys
      filter_seen_find)

lemma set_uniqueDocuments: "set (uniqueDocuments ds) \<subseteq> set ds"
proof -
  have "set (filter_seen S xs) \<subseteq> set xs" for S xs
    by (induction xs arbitrary: S) (auto simp: Let_def)
  then show ?thesis by (simp add: uniqueDocuments_def)
qed

text \<open>
  The decimal text of a number determines the number: reading the digits back gives it.
\<close>

lemma digit_char_code: "k < 10 \<Longrightarrow> (of_char (digit_char k) :: nat) = 48 + k"
  by (simp add: digit_char_def)

lemma string_of_nat_value:
  "foldl (\<lambda>a c. 10 * a + (of_char c - 48)) 0 (string_of_nat n) = n"
proof (induction n rule: string_of_nat.induct)
  case (1 n)
  show ?case
  proof (cases "n < 10")
    case True
    then show ?thesis
      by (subst string_of_nat.simps) (simp add: digit_char_code)
  next
    case False
    have "n mod 10 < 10" by simp
    then have "(of_char (digit_char (n mod 10)) :: nat) - 48 = n mod 10"
      by (simp add: digit_char_code)
    with False 1 show ?thesis
      by (subst string_of_nat.simps) simp
  qed
qed

lemma string_of_nat_inj:
  assumes "string_of_nat m = string_of_nat n"
  shows "m = n"
proof -
  have "m = foldl (\<lambda>a c. 10 * a + (of_char c - 48)) 0 (string_of_nat m)"
    by (simp only: string_of_nat_value)
  also have "\<dots> = foldl (\<lambda>a c. 10 * a + (of_char c - 48)) 0 (string_of_nat n)"
    by (simp only: assms)
  also have "\<dots> = n"
    by (rule string_of_nat_value)
  finally show ?thesis .
qed

lemma string_of_nat_hd:
  "\<exists>k < 10. \<exists>cs. string_of_nat n = digit_char k # cs"
proof (induction n rule: string_of_nat.induct)
  case (1 n)
  show ?case
  proof (cases "n < 10")
    case True
    then show ?thesis
      by (subst string_of_nat.simps) auto
  next
    case False
    with 1 obtain k cs where "k < 10" "string_of_nat (n div 10) = digit_char k # cs"
      by blast
    with False show ?thesis
      by (subst string_of_nat.simps) auto
  qed
qed

lemma digit_char_not_sign:
  assumes "k < 10"
  shows "digit_char k \<noteq> CHR ''-''" and "digit_char k \<noteq> CHR ''u''"
proof -
  have "(of_char (digit_char k) :: nat) \<noteq> of_char (CHR ''-'')"
    and "(of_char (digit_char k) :: nat) \<noteq> of_char (CHR ''u'')"
    using assms by (simp_all add: digit_char_code)
  then show "digit_char k \<noteq> CHR ''-''" and "digit_char k \<noteq> CHR ''u''"
    by auto
qed

lemma string_of_nat_not_signed: "string_of_nat n \<noteq> CHR ''-'' # cs"
proof
  assume a: "string_of_nat n = CHR ''-'' # cs"
  obtain k ds where k: "k < 10" "string_of_nat n = digit_char k # ds"
    using string_of_nat_hd [of n] by blast
  with a have "digit_char k = CHR ''-''" by simp
  with digit_char_not_sign(1) [OF k(1)] show False by simp
qed

lemma string_of_int_inj: "string_of_int i = string_of_int j \<Longrightarrow> i = j"
proof -
  assume eq: "string_of_int i = string_of_int j"
  consider "i < 0" "j < 0" | "i < 0" "\<not> j < 0" | "\<not> i < 0" "j < 0" | "\<not> i < 0" "\<not> j < 0"
    by blast
  then show "i = j"
  proof cases
    case 1
    with eq have "nat (- i) = nat (- j)"
      by (simp add: string_of_int_def string_of_nat_inj)
    with 1 show ?thesis by simp
  next
    case 2
    with eq string_of_nat_not_signed [of "nat j" "string_of_nat (nat (- i))"]
    show ?thesis by (simp add: string_of_int_def)
  next
    case 3
    with eq string_of_nat_not_signed [of "nat i" "string_of_nat (nat (- j))"]
    show ?thesis by (simp add: string_of_int_def)
  next
    case 4
    with eq have "nat i = nat j"
      by (simp add: string_of_int_def string_of_nat_inj)
    with 4 show ?thesis by simp
  qed
qed

lemma string_of_int_not_unknown_page: "string_of_int i \<noteq> ''unknown-page''"
proof (cases "i < 0")
  case True
  then show ?thesis by (simp add: string_of_int_def)
next
  case False
  obtain k cs where "k < 10" "string_of_nat (nat i) = digit_char k # cs"
    using string_of_nat_hd [of "nat i"] by blast
  with False digit_char_not_sign(2) [of k] show ?thesis
    by (auto simp: string_of_int_def)
qed

text \<open>
  On documents whose source is a string and whose page is a safe integer or absent, two
  keys are equal exactly when the two (source, page) pairs are.
\<close>

lemma typed_doc_page:
  assumes "typed_doc d"
  shows "doc_page d = JStr ''unknown-page'' \<or> (\<exists>n. doc_page d = JNum n)"
proof (cases "metadata_pageNumber d")
  case (JNum n)
  then show ?thesis by (simp add: doc_page_def js_coalesce_def)
qed (use assms in \<open>auto simp: typed_doc_def doc_page_def js_coalesce_def\<close>)

lemma typed_doc_page_no_colon:
  assumes "typed_doc d"
  shows "CHR '':'' \<notin> set (to_string (doc_page d))"
  using typed_doc_page [OF assms] by (auto simp: string_of_int_no_colon)

lemma typed_page_text_inj:
  assumes "typed_doc a" and "typed_doc b"
    and "to_string (doc_page a) = to_string (doc_page b)"
  shows "doc_page a = doc_page b"
proof -
  consider "doc_page a = JStr ''unknown-page''" "doc_page b = JStr ''unknown-page''"
    | n where "doc_page a = JStr ''unknown-page''" "doc_page b = JNum n"
    | m where "doc_page a = JNum m" "doc_page b = JStr ''unknown-page''"
    | m n where "doc_page a = JNum m" "doc_page b = JNum n"
    using typed_doc_page [OF assms(1)] typed_doc_page [OF assms(2)] by blast
  then show ?thesis
  proof cases
    case 1
    then show ?thesis by simp
  next
    case 2
    with assms(3) have "string_of_int n = ''unknown-page''" by simp
    with string_of_int_not_unknown_page [of n] show ?thesis by simp
  next
    case 3
    with assms(3) have "string_of_int m = ''unknown-page''" by simp
    with string_of_int_not_unknown_page [of m] show ?thesis by simp
  next
    case 4
    with assms(3) have "string_of_int m = string_of_int n" by simp
    then have "m = n" by (rule string_of_int_inj)
    with 4 show ?thesis by simp
  qed
qed

lemma typed_source_text_inj:
  assumes "typed_doc a" and "typed_doc b"
    and "to_string (doc_source a) = to_string (doc_source b)"
  shows "doc_source a = doc_source b"
proof -
  have str: "\<exists>s. v = JStr s" if "is_string v" for v
    using that by (cases v) simp_all
  obtain s t where "doc_source a = JStr s" "doc_source b = JStr t"
    using assms(1,2) str [of "doc_source a"] str [of "doc_source b"]
    by (auto simp: typed_doc_def)
  with assms(3) show ?thesis by simp
qed

lemma typed_key_eq_iff_identity:
  assumes "typed_doc a" and "typed_doc b"
  shows "(doc_key a = doc_key b) = (doc_identity a = doc_identity b)"
proof
  assume "doc_key a = doc_key b"
  then have "to_string (doc_source a) = to_string (doc_source b) \<and>
             to_string (doc_page a) = to_string (doc_page b)"
    unfolding doc_key_def
    by (rule key_split_unique [OF typed_doc_page_no_colon [OF assms(1)]
          typed_doc_page_no_colon [OF assms(2)]])
  then have "doc_source a = doc_source b" and "doc_page a = doc_page b"
    using typed_source_text_inj [OF assms] typed_page_text_inj [OF assms] by blast+
  then show "doc_identity a = doc_identity b"
    by (simp add: doc_identity_def)
next
  assume "doc_identity a = doc_identity b"
  then show "doc_key a = doc_key b"
    by (simp add: doc_identity_def doc_key_def)
qed

text \<open>
  On such lists the deduplicated list is a subsequence with exactly one document per
  distinct (source, page) identity, the first of the input with that identity.
\<close>

lemma identity_eq_key_eq: "doc_identity a = doc_identity b \<Longrightarrow> doc_key a = doc_key b"
  by (simp add: doc_identity_def doc_key_def)

lemma distinct_key_identity:
  "distinct (map doc_key xs) \<Longrightarrow> distinct (map doc_identity xs)"
proof (induction xs)
  case Nil
  show ?case by simp
next
  case (Cons x xs)
  have "doc_identity x \<notin> doc_identity ` set xs"
  proof
    assume "doc_identity x \<in> doc_identity ` set xs"
    then obtain y where "y \<in> set xs" "doc_identity x = doc_identity y"
      by blast
    then have "doc_key x \<in> doc_key ` set xs"
      using identity_eq_key_eq [of x y] by blast
    with Cons.prems show False by simp
  qed
  with Cons show ?case by simp
qed

lemma uniqueDocuments_one_per_identity_typed:
  assumes typed: "\<forall>d \<in> set ds. typed_doc d"
  shows "subseq (uniqueDocuments ds) ds \<and>
         distinct (map doc_identity (uniqueDocuments ds)) \<and>
         doc_identity ` set (uniqueDocuments ds) = doc_identity ` set ds \<and>
         (\<forall>p. find (\<lambda>d. doc_identity d = p) (uniqueDocuments ds) =
              find (\<lambda>d. doc_identity d = p) ds)"
proof -
  have k1: "subseq (uniqueDocuments ds) ds"
    and k2: "distinct (map doc_key (uniqueDocuments ds))"
    and k3: "doc_key ` set (uniqueDocuments ds) = doc_key ` set ds"
    and k4: "find (\<lambda>d. doc_key d = k) (uniqueDocuments ds) = find (\<lambda>d. doc_key d = k) ds"
    for k
    using uniqueDocuments_first_per_key [of ds] by blast+
  note sub = set_uniqueDocuments [of ds]
  have d: "distinct (map doc_identity (uniqueDocuments ds))"
    using k2 by (rule distinct_key_identity)
  have f: "find (\<lambda>d. doc_identity d = p) (uniqueDocuments ds) =
           find (\<lambda>d. doc_identity d = p) ds" for p
  proof (cases "\<exists>d0 \<in> set ds. doc_identity d0 = p")
    case True
    then obtain d0 where d0: "d0 \<in> set ds" "doc_identity d0 = p"
      by blast
    have c: "(doc_identity e = p) = (doc_key e = doc_key d0)" if "e \<in> set ds" for e
    proof -
      from typed that d0(1) have "typed_doc e" "typed_doc d0"
        by blast+
      then have "(doc_key e = doc_key d0) = (doc_identity e = doc_identity d0)"
        by (rule typed_key_eq_iff_identity)
      then show ?thesis
        unfolding d0(2) by (rule sym)
    qed
    have c': "(doc_identity e = p) = (doc_key e = doc_key d0)"
      if "e \<in> set (uniqueDocuments ds)" for e
      using that sub c by blast
    have "find (\<lambda>d. doc_identity d = p) ds = find (\<lambda>d. doc_key d = doc_key d0) ds"
      using c by (rule find_cong [OF refl])
    moreover
    have "find (\<lambda>d. doc_identity d = p) (uniqueDocuments ds) =
          find (\<lambda>d. doc_key d = doc_key d0) (uniqueDocuments ds)"
      using c' by (rule find_cong [OF refl])
    ultimately show ?thesis
      by (simp only: k4)
  next
    case False
    then have "find (\<lambda>d. doc_identity d = p) ds = None"
      by (simp add: find_None_iff)
    moreover from False sub have "find (\<lambda>d. doc_identity d = p) (uniqueDocuments ds) = None"
      unfolding find_None_iff by blast
    ultimately show ?thesis by simp
  qed
  have i: "doc_identity ` set (uniqueDocuments ds) = doc_identity ` set ds"
  proof
    show "doc_identity ` set (uniqueDocuments ds) \<subseteq> doc_identity ` set ds"
      using sub by blast
    show "doc_identity ` set ds \<subseteq> doc_identity ` set (uniqueDocuments ds)"
    proof
      fix p
      assume "p \<in> doc_identity ` set ds"
      then obtain d0 where d0: "d0 \<in> set ds" "p = doc_identity d0"
        by blast
      then have "doc_key d0 \<in> doc_key ` set (uniqueDocuments ds)"
        unfolding k3 by blast
      then obtain e where e: "e \<in> set (uniqueDocuments ds)" "doc_key d0 = doc_key e"
        by blast
      with sub have "e \<in> set ds" by blast
      with typed d0(1) have "typed_doc e" "typed_doc d0"
        by blast+
      then have "(doc_key e = doc_key d0) = (doc_identity e = doc_identity d0)"
        by (rule typed_key_eq_iff_identity)
      with e(2) have "doc_identity e = doc_identity d0"
        by simp
      with e(1) have "doc_identity d0 \<in> doc_identity ` set (uniqueDocuments ds)"
        by (metis imageI)
      with d0(2) show "p \<in> doc_identity ` set (uniqueDocuments ds)"
        by simp
    qed
  qed
  from k1 d i f show ?thesis by blast
qed

lemma example_docs_typed: "\<forall>d \<in> set example_docs. typed_doc d"
  by (simp add: example_docs_def typed_doc_def doc_source_def js_or_def metadata_source_def
      metadata_filename_def metadata_pageNumber_def)

lemma example_docs_deduplicated:
  "uniqueDocuments example_docs = [example_docs ! 0, example_docs ! 2] \<and>
   distinct (map doc_identity (uniqueDocuments example_docs))"
proof -
  have "uniqueDocuments example_docs = [example_docs ! 0, example_docs ! 2]"
    by (simp add: example_docs_def doc_key_unfold string_of_int_three)
  with uniqueDocuments_one_per_identity_typed [OF example_docs_typed] show ?thesis
    by simp
qed

text \<open>
  Claim C1, at a failing input. The two documents below differ in source and in page,
  so their (source, page) identities are distinct and the claim keeps both. The filter
  joins source and page with \<open>::\<close> into one text; both documents get the key
  \<open>a::b::c\<close>, and the second is dropped as a duplicate of the first: the output holds no
  document of the second identity.
\<close>

theorem uniqueDocuments_key_collision:
  "doc_identity \<lparr>pageContent = ''first'', metadata = Some \<lparr>source = JStr ''a::b'',
       filename = JUndefined, loc = Some \<lparr>pageNumber = JStr ''c''\<rparr>\<rparr>\<rparr>
   \<noteq> doc_identity \<lparr>pageContent = ''second'', metadata = Some \<lparr>source = JStr ''a'',
       filename = JUndefined, loc = Some \<lparr>pageNumber = JStr ''b::c''\<rparr>\<rparr>\<rparr> \<and>
   doc_key \<lparr>pageContent = ''first'', metadata = Some \<lparr>source = JStr ''a::b'',
       filename = JUndefined, loc = Some \<lparr>pageNumber = JStr ''c''\<rparr>\<rparr>\<rparr> = ''a::b::c'' \<and>
   doc_key \<lparr>pageContent = ''second'', metadata = Some \<lparr>source = JStr ''a'',
       filename = JUndefined, loc = Some \<lparr>pageNumber = JStr ''b::c''\<rparr>\<rparr>\<rparr> = ''a::b::c'' \<and>
   uniqueDocuments
     [\<lparr>pageContent = ''first'', metadata = Some \<lparr>source = JStr ''a::b'',
         filename = JUndefined, loc = Some \<lparr>pageNumber = JStr ''c''\<rparr>\<rparr>\<rparr>,
      \<lparr>pageContent = ''second'', metadata = Some \<lparr>source = JStr ''a'',
         filename = JUndefined, loc = Some \<lparr>pageNumber = JStr ''b::c''\<rparr>\<rparr>\<rparr>]
   = [\<lparr>pageContent = ''first'', metadata = Some \<lparr>source = JStr ''a::b'',
         filename = JUndefined, loc = Some \<lparr>pageNumber = JStr ''c''\<rparr>\<rparr>\<rparr>]"
  by (simp add: doc_key_unfold)

text \<open>
  Claim C8, as stated, at a concrete input. A document with no \<open>source\<close> and no page
  but with a \<open>filename\<close> has that filename, not \<open>unknown-source\<close>, as the source
  component of its identity; and two documents that both lack source and page but carry
  different filenames are both kept.
\<close>

theorem unknown_source_counterexample:
  "metadata_source \<lparr>pageContent = ''p'', metadata = Some \<lparr>source = JUndefined,
       filename = JStr ''a.pdf'', loc = None\<rparr>\<rparr> = JUndefined \<and>
   metadata_pageNumber \<lparr>pageContent = ''p'', metadata = Some \<lparr>source = JUndefined,
       filename = JStr ''a.pdf'', loc = None\<rparr>\<rparr> = JUndefined \<and>
   doc_source \<lparr>pageContent = ''p'', metadata = Some \<lparr>source = JUndefined,
       filename = JStr ''a.pdf'', loc = None\<rparr>\<rparr> = JStr ''a.pdf'' \<and>
   doc_source \<lparr>pageContent = ''p'', metadata = Some \<lparr>source = JUndefined,
       filename = JStr ''a.pdf'', loc = None\<rparr>\<rparr> \<noteq> JStr ''unknown-source'' \<and>
   uniqueDocuments
     [\<lparr>pageContent = ''p'', metadata = Some \<lparr>source = JUndefined,
         filename = JStr ''a.pdf'', loc = None\<rparr>\<rparr>,
      \<lparr>pageContent = ''q'', metadata = Some \<lparr>source = JUndefined,
         filename = JStr ''b.pdf'', loc = None\<rparr>\<rparr>]
   = [\<lparr>pageContent = ''p'', metadata = Some \<lparr>source = JUndefined,
         filename = JStr ''a.pdf'', loc = None\<rparr>\<rparr>,
      \<lparr>pageContent = ''q'', metadata = Some \<lparr>source = JUndefined,
         filename = JStr ''b.pdf'', loc = None\<rparr>\<rparr>]"
  by (simp add: doc_key_unfold)

text \<open>
  Claim C8, amended. For every document whose \<open>source\<close> and \<open>filename\<close> metadata are
  both absent (or otherwise falsy) the source component of the identity is
  \<open>unknown-source\<close>, and for every document whose page metadata is absent (or null) the
  page component is \<open>unknown-page\<close>. Any two documents that lack source, filename and
  page have the key \<open>unknown-source::unknown-page\<close>, and the later of the two, wherever
  it stands in the input after the earlier one, is dropped.
\<close>

theorem unknown_fallback_identity:
  "(\<not> truthy (metadata_source d) \<and> \<not> truthy (metadata_filename d) \<longrightarrow>
      doc_source d = JStr ''unknown-source'') \<and>
   (nullish (metadata_pageNumber d) \<longrightarrow> doc_page d = JStr ''unknown-page'') \<and>
   (\<not> truthy (metadata_source d1) \<and> \<not> truthy (metadata_filename d1) \<and>
    nullish (metadata_pageNumber d1) \<and>
    \<not> truthy (metadata_source d2) \<and> \<not> truthy (metadata_filename d2) \<and>
    nullish (metadata_pageNumber d2) \<longrightarrow>
      doc_key d1 = ''unknown-source::unknown-page'' \<and>
      doc_key d2 = ''unknown-source::unknown-page'' \<and>
      uniqueDocuments (xs @ d1 # ys @ d2 # zs) = uniqueDocuments (xs @ d1 # ys @ zs))"
proof -
  have key: "doc_key x = ''unknown-source::unknown-page''"
    if "\<not> truthy (metadata_source x)" "\<not> truthy (metadata_filename x)"
       "nullish (metadata_pageNumber x)" for x
    using that by (simp add: doc_key_def doc_source_fallback doc_page_fallback)
  show ?thesis
    by (auto simp: doc_source_fallback doc_page_fallback key intro: later_duplicate_dropped)
qed

theorem unknown_fallback_identity_witness:
  "\<not> truthy (metadata_source \<lparr>pageContent = ''p'', metadata = None\<rparr>) \<and>
   \<not> truthy (metadata_filename \<lparr>pageContent = ''p'', metadata = None\<rparr>) \<and>
   nullish (metadata_pageNumber \<lparr>pageContent = ''p'', metadata = None\<rparr>) \<and>
   \<not> truthy (metadata_source \<lparr>pageContent = ''q'', metadata = Some \<lparr>source = JStr [],
      filename = JNull, loc = Some \<lparr>pageNumber = JNull\<rparr>\<rparr>\<rparr>) \<and>
   \<not> truthy (metadata_filename \<lparr>pageContent = ''q'', metadata = Some \<lparr>source = JStr [],
      filename = JNull, loc = Some \<lparr>pageNumber = JNull\<rparr>\<rparr>\<rparr>) \<and>
   nullish (metadata_pageNumber \<lparr>pageContent = ''q'', metadata = Some \<lparr>source = JStr [],
      filename = JNull, loc = Some \<lparr>pageNumber = JNull\<rparr>\<rparr>\<rparr>) \<and>
   doc_source \<lparr>pageContent = ''p'', metadata = None\<rparr> = JStr ''unknown-source'' \<and>
   doc_page \<lparr>pageContent = ''p'', metadata = None\<rparr> = JStr ''unknown-page'' \<and>
   doc_key \<lparr>pageContent = ''q'', metadata = Some \<lparr>source = JStr [],
      filename = JNull, loc = Some \<lparr>pageNumber = JNull\<rparr>\<rparr>\<rparr> = ''unknown-source::unknown-page'' \<and>
   uniqueDocuments ([] @ \<lparr>pageContent = ''p'', metadata = None\<rparr> # [] @
      \<lparr>pageContent = ''q'', metadata = Some \<lparr>source = JStr [],
        filename = JNull, loc = Some \<lparr>pageNumber = JNull\<rparr>\<rparr>\<rparr> # [])
    = uniqueDocuments ([] @ \<lparr>pageContent = ''p'', metadata = None\<rparr> # [] @ [])"
proof -
  have h1: "\<not> truthy (metadata_source \<lparr>pageContent = ''p'', metadata = None\<rparr>)"
    "\<not> truthy (metadata_filename \<lparr>pageContent = ''p'', metadata = None\<rparr>)"
    "nullish (metadata_pageNumber \<lparr>pageContent = ''p'', metadata = None\<rparr>)"
    by (simp_all add: metadata_source_def metadata_filename_def metadata_pageNumber_def)
  have h2: "\<not> truthy (metadata_source \<lparr>pageContent = ''q'', metadata = Some \<lparr>source = JStr [],
        filename = JNull, loc = Some \<lparr>pageNumber = JNull\<rparr>\<rparr>\<rparr>)"
    "\<not> truthy (metadata_filename \<lparr>pageContent = ''q'', metadata = Some \<lparr>source = JStr [],
        filename = JNull, loc = Some \<lparr>pageNumber = JNull\<rparr>\<rparr>\<rparr>)"
    "nullish (metadata_pageNumber \<lparr>pageContent = ''q'', metadata = Some \<lparr>source = JStr [],
        filename = JNull, loc = Some \<lparr>pageNumber = JNull\<rparr>\<rparr>\<rparr>)"
    by (simp_all add: metadata_source_def metadata_filename_def metadata_pageNumber_def)
  show ?thesis
    using h1 h2
      unknown_fallback_identity
        [of "\<lparr>pageContent = ''p'', metadata = None\<rparr>"
            "\<lparr>pageContent = ''p'', metadata = None\<rparr>"
            "\<lparr>pageContent = ''q'', metadata = Some \<lparr>source = JStr [],
               filename = JNull, loc = Some \<lparr>pageNumber = JNull\<rparr>\<rparr>\<rparr>" "[]" "[]" "[]"]
    by blast
qed

text \<open>
  Claim C10. The two components of the key are computed differently. The source
  component is the \<open>source\<close> metadata exactly when that is truthy: an empty-string source
  falls back to a truthy \<open>filename\<close>, and an empty-string source with an empty-string
  filename gives \<open>unknown-source\<close>. The page component is the \<open>loc.pageNumber\<close> metadata
  exactly when that is neither null nor undefined, so page number 0 stays the page of the
  identity and the key ends in \<open>::0\<close>.
\<close>

theorem key_components_asymmetric:
  "(doc_source d = metadata_source d) = truthy (metadata_source d) \<and>
   (metadata_source d = JStr [] \<and> truthy (metadata_filename d) \<longrightarrow>
      doc_source d = metadata_filename d) \<and>
   (metadata_source d = JStr [] \<and> metadata_filename d = JStr [] \<longrightarrow>
      doc_source d = JStr ''unknown-source'') \<and>
   (doc_page d = metadata_pageNumber d) = (\<not> nullish (metadata_pageNumber d)) \<and>
   (metadata_pageNumber d = JNum 0 \<longrightarrow>
      doc_page d = JNum 0 \<and> doc_key d = to_string (doc_source d) @ ''::0'')"
proof -
  have "(doc_source d = metadata_source d) = truthy (metadata_source d)"
    using doc_source_truthy [of d] by (auto simp: doc_source_def js_or_def)
  moreover have "(doc_page d = metadata_pageNumber d) = (\<not> nullish (metadata_pageNumber d))"
    by (cases "metadata_pageNumber d") (auto simp: doc_page_def js_coalesce_def)
  moreover have "metadata_pageNumber d = JNum 0 \<longrightarrow>
      doc_page d = JNum 0 \<and> doc_key d = to_string (doc_source d) @ ''::0''"
    by (simp add: doc_key_def doc_page_def js_coalesce_def string_of_int_zero)
  ultimately show ?thesis
    by (simp add: doc_source_def js_or_def)
qed

theorem key_components_asymmetric_witness:
  "metadata_source \<lparr>pageContent = ''p'', metadata = Some \<lparr>source = JStr [],
      filename = JStr ''f.txt'', loc = Some \<lparr>pageNumber = JNum 0\<rparr>\<rparr>\<rparr> = JStr [] \<and>
   truthy (metadata_filename \<lparr>pageContent = ''p'', metadata = Some \<lparr>source = JStr [],
      filename = JStr ''f.txt'', loc = Some \<lparr>pageNumber = JNum 0\<rparr>\<rparr>\<rparr>) \<and>
   metadata_pageNumber \<lparr>pageContent = ''p'', metadata = Some \<lparr>source = JStr [],
      filename = JStr ''f.txt'', loc = Some \<lparr>pageNumber = JNum 0\<rparr>\<rparr>\<rparr> = JNum 0 \<and>
   doc_source \<lparr>pageContent = ''p'', metadata = Some \<lparr>source = JStr [],
      filename = JStr ''f.txt'', loc = Some \<lparr>pageNumber = JNum 0\<rparr>\<rparr>\<rparr> = JStr ''f.txt'' \<and>
   doc_page \<lparr>pageContent = ''p'', metadata = Some \<lparr>source = JStr [],
      filename = JStr ''f.txt'', loc = Some \<lparr>pageNumber = JNum 0\<rparr>\<rparr>\<rparr> = JNum 0 \<and>
   doc_key \<lparr>pageContent = ''p'', metadata = Some \<lparr>source = JStr [],
      filename = JStr ''f.txt'', loc = Some \<lparr>pageNumber = JNum 0\<rparr>\<rparr>\<rparr> = ''f.txt::0'' \<and>
   metadata_source \<lparr>pageContent = ''q'', metadata = Some \<lparr>source = JStr [],
      filename = JStr [], loc = None\<rparr>\<rparr> = JStr [] \<and>
   metadata_filename \<lparr>pageContent = ''q'', metadata = Some \<lparr>source = JStr [],
      filename = JStr [], loc = None\<rparr>\<rparr> = JStr [] \<and>
   doc_source \<lparr>pageContent = ''q'', metadata = Some \<lparr>source = JStr [],
      filename = JStr [], loc = None\<rparr>\<rparr> = JStr ''unknown-source''"
proof -
  have m: "metadata_source \<lparr>pageContent = ''p'', metadata = Some \<lparr>source = JStr [],
      filename = JStr ''f.txt'', loc = Some \<lparr>pageNumber = JNum 0\<rparr>\<rparr>\<rparr> = JStr []"
    "metadata_filename \<lparr>pageContent = ''p'', metadata = Some \<lparr>source = JStr [],
      filename = JStr ''f.txt'', loc = Some \<lparr>pageNumber = JNum 0\<rparr>\<rparr>\<rparr> = JStr ''f.txt''"
    "metadata_pageNumber \<lparr>pageContent = ''p'', metadata = Some \<lparr>source = JStr [],
      filename = JStr ''f.txt'', loc = Some \<lparr>pageNumber = JNum 0\<rparr>\<rparr>\<rparr> = JNum 0"
    "metadata_source \<lparr>pageContent = ''q'', metadata = Some \<lparr>source = JStr [],
      filename = JStr [], loc = None\<rparr>\<rparr> = JStr []"
    "metadata_filename \<lparr>pageContent = ''q'', metadata = Some \<lparr>source = JStr [],
      filename = JStr [], loc = None\<rparr>\<rparr> = JStr []"
    by (simp_all add: metadata_source_def metadata_filename_def metadata_pageNumber_def)
  show ?thesis
    using m
      key_components_asymmetric
        [of "\<lparr>pageContent = ''p'', metadata = Some \<lparr>source = JStr [],
               filename = JStr ''f.txt'', loc = Some \<lparr>pageNumber = JNum 0\<rparr>\<rparr>\<rparr>"]
      key_components_asymmetric
        [of "\<lparr>pageContent = ''q'', metadata = Some \<lparr>source = JStr [],
               filename = JStr [], loc = None\<rparr>\<rparr>"]
    by simp
qed

section \<open>Routing dispatch\<close>

lemma routeQuery_cases:
  "routeQuery s =
     (if route s = None \<or> route s = Some [] then Inl (Error ''Route is not set'')
      else if route s = Some ''retrieve'' then Inr N_retrieveDocuments
      else if route s = Some ''direct'' then Inr N_directAnswer
      else Inl (Error ''Invalid route''))"
proof (cases "route s")
  case None
  then show ?thesis by (simp add: routeQuery_def)
next
  case (Some r)
  then show ?thesis by (simp add: routeQuery_def)
qed

text \<open>
  Claim C2, as stated, at a concrete input. The empty string is a value of \<open>route\<close>
  other than \<open>retrieve\<close> and \<open>direct\<close>, and it is set; the dispatch fails on it with
  the \<open>Route is not set\<close> error, not with the invalid-route error.
\<close>

theorem routeQuery_empty_route_counterexample:
  "route \<lparr>query = ''q'', route = Some [], documents = [], messages = []\<rparr> \<noteq> None \<and>
   routeQuery \<lparr>query = ''q'', route = Some [], documents = [], messages = []\<rparr>
     = Inl (Error ''Route is not set'') \<and>
   routeQuery \<lparr>query = ''q'', route = Some [], documents = [], messages = []\<rparr>
     \<noteq> Inl (Error ''Invalid route'')"
  by (simp add: routeQuery_def)

text \<open>
  Claim C2, amended. The dispatch is a function of the \<open>route\<close> field alone: \<open>retrieve\<close>
  selects the retrieval node, \<open>direct\<close> selects the direct-answer node, an unset route or
  the empty string fails with the \<open>Route is not set\<close> error, and every other value fails
  with the \<open>Invalid route\<close> error. A node is selected only for \<open>retrieve\<close> and \<open>direct\<close>.
\<close>

theorem routeQuery_dispatch:
  "(route s = Some ''retrieve'' \<longrightarrow> routeQuery s = Inr N_retrieveDocuments) \<and>
   (route s = Some ''direct'' \<longrightarrow> routeQuery s = Inr N_directAnswer) \<and>
   (route s = None \<or> route s = Some [] \<longrightarrow> routeQuery s = Inl (Error ''Route is not set'')) \<and>
   (\<forall>r. route s = Some r \<and> r \<noteq> [] \<and> r \<noteq> ''retrieve'' \<and> r \<noteq> ''direct'' \<longrightarrow>
        routeQuery s = Inl (Error ''Invalid route'')) \<and>
   ((\<exists>n. routeQuery s = Inr n) \<longrightarrow> route s = Some ''retrieve'' \<or> route s = Some ''direct'') \<and>
   (route s = route s' \<longrightarrow> routeQuery s = routeQuery s')"
  by (auto simp: routeQuery_cases split: if_splits)

theorem routeQuery_dispatch_witness:
  "route (example_state\<lparr>route := Some ''retrieve''\<rparr>) = Some ''retrieve'' \<and>
   routeQuery (example_state\<lparr>route := Some ''retrieve''\<rparr>) = Inr N_retrieveDocuments \<and>
   route (example_state\<lparr>route := Some ''direct''\<rparr>) = Some ''direct'' \<and>
   routeQuery (example_state\<lparr>route := Some ''direct''\<rparr>) = Inr N_directAnswer \<and>
   route example_state = None \<and>
   routeQuery example_state = Inl (Error ''Route is not set'') \<and>
   route (example_state\<lparr>route := Some ''web''\<rparr>) = Some ''web'' \<and>
   routeQuery (example_state\<lparr>route := Some ''web''\<rparr>) = Inl (Error ''Invalid route'') \<and>
   route (example_state\<lparr>route := Some ''direct''\<rparr>) =
     route (example_state\<lparr>route := Some ''direct'', query := ''other''\<rparr>) \<and>
   routeQuery (example_state\<lparr>route := Some ''direct''\<rparr>) =
     routeQuery (example_state\<lparr>route := Some ''direct'', query := ''other''\<rparr>)"
proof -
  have r: "route (example_state\<lparr>route := Some ''retrieve''\<rparr>) = Some ''retrieve''"
    "route (example_state\<lparr>route := Some ''direct''\<rparr>) = Some ''direct''"
    "route example_state = None"
    "route (example_state\<lparr>route := Some ''web''\<rparr>) = Some ''web''"
    "route (example_state\<lparr>route := Some ''direct''\<rparr>) =
       route (example_state\<lparr>route := Some ''direct'', query := ''other''\<rparr>)"
    by (simp_all add: example_state_def)
  have w: "''web'' \<noteq> []" "''web'' \<noteq> ''retrieve''" "''web'' \<noteq> ''direct''"
    by simp_all
  have 1: "routeQuery (example_state\<lparr>route := Some ''retrieve''\<rparr>) = Inr N_retrieveDocuments"
    using routeQuery_dispatch [of "example_state\<lparr>route := Some ''retrieve''\<rparr>"] r(1)
    by blast
  have 2: "routeQuery (example_state\<lparr>route := Some ''direct''\<rparr>) = Inr N_directAnswer"
    using routeQuery_dispatch [of "example_state\<lparr>route := Some ''direct''\<rparr>"] r(2)
    by blast
  have 3: "routeQuery example_state = Inl (Error ''Route is not set'')"
    using routeQuery_dispatch [of example_state] r(3) by blast
  have 4: "routeQuery (example_state\<lparr>route := Some ''web''\<rparr>) = Inl (Error ''Invalid route'')"
    using routeQuery_dispatch [of "example_state\<lparr>route := Some ''web''\<rparr>"] r(4) w
    by blast
  have 5: "routeQuery (example_state\<lparr>route := Some ''direct''\<rparr>) =
     routeQuery (example_state\<lparr>route := Some ''direct'', query := ''other''\<rparr>)"
    using routeQuery_dispatch [of "example_state\<lparr>route := Some ''direct''\<rparr>"
        "example_state\<lparr>route := Some ''direct'', query := ''other''\<rparr>"] r(5)
    by blast
  from r 1 2 3 4 5 show ?thesis by (simp only: simp_thms)
qed

section \<open>The generation node and the direct-answer node\<close>

lemma normalizeMessage_HumanMessage:
  "normalizeMessage (HumanMessage c Map.empty) = HumanMessage c Map.empty"
  by (simp add: normalizeMessage_def HumanMessage_def)

lemma normalizeMessages_snoc_human:
  "normalizeMessages (ms @ [HumanMessage c Map.empty]) =
     normalizeMessages ms @ [HumanMessage c Map.empty]"
  by (simp add: normalizeMessages_def normalizeMessage_HumanMessage)

text \<open>
  Claim C3. For every state, the generation node makes one model call. Its input has one
  turn per turn of the prior \<open>messages\<close>, in order, each normalized (no \<open>name\<close> key, role
  \<open>ai\<close> if the prior turn's role is \<open>ai\<close> and \<open>human\<close> otherwise, the content and every
  other metadata entry kept, the remaining fields at their defaults), followed by one
  additional human turn whose content is the rendered response prompt. The update the
  node returns appends to \<open>messages\<close> two turns: a human turn whose content is the
  original query, and the model's response to that call.
\<close>

theorem generateResponse_input_and_turns:
  "\<exists>input.
     snd (generateResponse e s) = [ModelInvoke (queryModel e) input] \<and>
     length input = Suc (length (messages s)) \<and>
     (\<forall>i < length (messages s).
        additional_kwargs (input ! i) ''name'' = None \<and>
        msg_type (input ! i) = (if msg_type (messages s ! i) = ''ai'' then ''ai'' else ''human'') \<and>
        content (input ! i) = content (messages s ! i) \<and>
        (\<forall>k. k \<noteq> ''name'' \<longrightarrow>
           additional_kwargs (input ! i) k = additional_kwargs (messages s ! i) k) \<and>
        msg_id (input ! i) = None \<and> msg_name (input ! i) = None \<and>
        response_metadata (input ! i) = Map.empty \<and> tool_calls (input ! i) = []) \<and>
     msg_type (input ! length (messages s)) = ''human'' \<and>
     content (input ! length (messages s)) =
       RESPONSE_SYSTEM_PROMPT e (query s) (formatDocs e (documents s)) \<and>
     additional_kwargs (input ! length (messages s)) = Map.empty \<and>
     upd_messages (fst (generateResponse e s)) =
       Some [HumanMessage (query s) Map.empty, model_invoke e (queryModel e) input] \<and>
     messages (apply_update s (fst (generateResponse e s))) =
       messages s @ [HumanMessage (query s) Map.empty, model_invoke e (queryModel e) input] \<and>
     content (HumanMessage (query s) Map.empty) = query s \<and>
     msg_type (HumanMessage (query s) Map.empty) = ''human''"
proof -
  let ?prompt = "RESPONSE_SYSTEM_PROMPT e (query s) (formatDocs e (documents s))"
  define input where "input = normalizeMessages (messages s) @ [HumanMessage ?prompt Map.empty]"
  have g: "generateResponse e s =
      (\<lparr>upd_route = None, upd_documents = None,
        upd_messages = Some [HumanMessage (query s) Map.empty,
                             model_invoke e (queryModel e) input]\<rparr>,
       [ModelInvoke (queryModel e) input])"
    by (simp add: generateResponse_def Let_def normalizeMessages_snoc_human input_def)
  have l: "length input = Suc (length (messages s))"
    by (simp add: input_def length_normalizeMessages)
  have n: "input ! i = normalizeMessage (messages s ! i)" if "i < length (messages s)" for i
    using that
    by (simp add: input_def nth_append length_normalizeMessages nth_normalizeMessages)
  have p: "input ! length (messages s) = HumanMessage ?prompt Map.empty"
    by (simp add: input_def nth_append length_normalizeMessages)
  have c1: "snd (generateResponse e s) = [ModelInvoke (queryModel e) input]"
    by (simp add: g)
  have c3: "\<forall>i < length (messages s).
        additional_kwargs (input ! i) ''name'' = None \<and>
        msg_type (input ! i) = (if msg_type (messages s ! i) = ''ai'' then ''ai'' else ''human'') \<and>
        content (input ! i) = content (messages s ! i) \<and>
        (\<forall>k. k \<noteq> ''name'' \<longrightarrow>
           additional_kwargs (input ! i) k = additional_kwargs (messages s ! i) k) \<and>
        msg_id (input ! i) = None \<and> msg_name (input ! i) = None \<and>
        response_metadata (input ! i) = Map.empty \<and> tool_calls (input ! i) = []"
  proof (intro allI impI)
    fix i
    assume "i < length (messages s)"
    then have "input ! i = normalizeMessage (messages s ! i)"
      by (rule n)
    then show "additional_kwargs (input ! i) ''name'' = None \<and>
        msg_type (input ! i) = (if msg_type (messages s ! i) = ''ai'' then ''ai'' else ''human'') \<and>
        content (input ! i) = content (messages s ! i) \<and>
        (\<forall>k. k \<noteq> ''name'' \<longrightarrow>
           additional_kwargs (input ! i) k = additional_kwargs (messages s ! i) k) \<and>
        msg_id (input ! i) = None \<and> msg_name (input ! i) = None \<and>
        response_metadata (input ! i) = Map.empty \<and> tool_calls (input ! i) = []"
      by (simp add: normalizeMessage_type normalizeMessage_content normalizeMessage_kwargs
          normalizeMessage_defaults)
  qed
  have c4: "msg_type (input ! length (messages s)) = ''human''"
    "content (input ! length (messages s)) = ?prompt"
    "additional_kwargs (input ! length (messages s)) = Map.empty"
    unfolding p by (simp_all add: HumanMessage_def)
  have c5: "upd_messages (fst (generateResponse e s)) =
       Some [HumanMessage (query s) Map.empty, model_invoke e (queryModel e) input]"
    by (simp add: g)
  have c6: "messages (apply_update s (fst (generateResponse e s))) =
       messages s @ [HumanMessage (query s) Map.empty, model_invoke e (queryModel e) input]"
    by (simp add: g apply_update_def)
  have c7: "content (HumanMessage (query s) Map.empty) = query s"
    "msg_type (HumanMessage (query s) Map.empty) = ''human''"
    by (simp_all add: HumanMessage_def)
  from c1 l c3 c4 c5 c6 c7
  have big: "snd (generateResponse e s) = [ModelInvoke (queryModel e) input] \<and>
     length input = Suc (length (messages s)) \<and>
     (\<forall>i < length (messages s).
        additional_kwargs (input ! i) ''name'' = None \<and>
        msg_type (input ! i) = (if msg_type (messages s ! i) = ''ai'' then ''ai'' else ''human'') \<and>
        content (input ! i) = content (messages s ! i) \<and>
        (\<forall>k. k \<noteq> ''name'' \<longrightarrow>
           additional_kwargs (input ! i) k = additional_kwargs (messages s ! i) k) \<and>
        msg_id (input ! i) = None \<and> msg_name (input ! i) = None \<and>
        response_metadata (input ! i) = Map.empty \<and> tool_calls (input ! i) = []) \<and>
     msg_type (input ! length (messages s)) = ''human'' \<and>
     content (input ! length (messages s)) = ?prompt \<and>
     additional_kwargs (input ! length (messages s)) = Map.empty \<and>
     upd_messages (fst (generateResponse e s)) =
       Some [HumanMessage (query s) Map.empty, model_invoke e (queryModel e) input] \<and>
     messages (apply_update s (fst (generateResponse e s))) =
       messages s @ [HumanMessage (query s) Map.empty, model_invoke e (queryModel e) input] \<and>
     content (HumanMessage (query s) Map.empty) = query s \<and>
     msg_type (HumanMessage (query s) Map.empty) = ''human''"
    by (intro conjI)
  show ?thesis
    by (rule exI [of _ input]) (rule big)
qed

theorem generateResponse_input_and_turns_witness:
  "(case snd (generateResponse example_env (example_state\<lparr>messages := example_history\<rparr>)) of
      [ModelInvoke m input] \<Rightarrow>
        length input = 3 \<and>
        additional_kwargs (input ! 0) ''name'' = None \<and>
        msg_type (input ! 0) = ''human'' \<and>
        content (input ! 0) = ''be brief'' \<and>
        msg_type (input ! 1) = ''ai'' \<and>
        msg_type (input ! 2) = ''human'' \<and>
        content (input ! 2) = ''Question: What is the capital of France?''
    | _ \<Rightarrow> False) \<and>
   upd_messages (fst (generateResponse example_env
       (example_state\<lparr>messages := example_history\<rparr>))) =
     Some [HumanMessage ''What is the capital of France?'' Map.empty,
           AIMessage ''Paris'' Map.empty]"
proof -
  let ?s = "example_state\<lparr>messages := example_history\<rparr>"
  have v: "messages ?s = example_history" "query ?s = ''What is the capital of France?''"
    "documents ?s = []"
    "RESPONSE_SYSTEM_PROMPT example_env q c = c @ ''Question: '' @ q"
    "formatDocs example_env [] = []"
    "model_invoke example_env m i = AIMessage ''Paris'' Map.empty" for m i q c
    by (simp_all add: example_state_def example_env_def)
  from generateResponse_input_and_turns [of example_env ?s]
  obtain input where
    c: "snd (generateResponse example_env ?s) = [ModelInvoke (queryModel example_env) input]"
    and l: "length input = Suc (length (messages ?s))"
    and a: "\<forall>i < length (messages ?s).
        additional_kwargs (input ! i) ''name'' = None \<and>
        msg_type (input ! i) = (if msg_type (messages ?s ! i) = ''ai'' then ''ai'' else ''human'') \<and>
        content (input ! i) = content (messages ?s ! i)"
    and t: "msg_type (input ! length (messages ?s)) = ''human''"
    and p: "content (input ! length (messages ?s)) =
       RESPONSE_SYSTEM_PROMPT example_env (query ?s) (formatDocs example_env (documents ?s))"
    and u: "upd_messages (fst (generateResponse example_env ?s)) =
       Some [HumanMessage (query ?s) Map.empty,
             model_invoke example_env (queryModel example_env) input]"
    by blast
  have i: "0 < length example_history" "Suc 0 < length example_history"
    by (simp_all add: example_history_nth)
  from a i v(1) have "additional_kwargs (input ! 0) ''name'' = None"
    and "msg_type (input ! 0) = ''human''"
    and "content (input ! 0) = ''be brief''"
    and "msg_type (input ! Suc 0) = ''ai''"
    by (simp_all add: example_history_nth)
  moreover from l have "length input = 3"
    by (simp add: v example_history_nth)
  moreover from t p have "msg_type (input ! 2) = ''human''"
    and "content (input ! 2) = ''Question: What is the capital of France?''"
    by (simp_all add: v example_history_nth)
  ultimately show ?thesis
    unfolding c u by (simp add: v)
qed

lemma answerQueryDirectly_eq:
  "answerQueryDirectly e s =
     (\<lparr>upd_route = None, upd_documents = None,
       upd_messages = Some [HumanMessage (query s) Map.empty,
         model_invoke e (queryModel e) [HumanMessage (query s) Map.empty]]\<rparr>,
      [ModelInvoke (queryModel e) [HumanMessage (query s) Map.empty]])"
  by (simp add: answerQueryDirectly_def Let_def normalizeMessages_def
      normalizeMessage_HumanMessage)

text \<open>
  Claim C4. When the router's structured response has route \<open>direct\<close>, the graph run
  returns a state whose \<open>messages\<close> are the initial ones followed by exactly two turns,
  the human turn of the original query and then the chat model's response to that single
  turn (an assistant turn whenever the model returns one); \<open>documents\<close> is unchanged, so
  it stays empty when it was, the retriever is never invoked, and the direct-answer
  node's update carries no \<open>documents\<close> key.
\<close>

theorem direct_route_appends_two_turns:
  assumes "resp_route (model_invoke_structured e (queryModel e)
             (ROUTER_SYSTEM_PROMPT e (query s))) = ''direct''"
  shows "\<exists>s' cs response.
     graph_invoke e s = Some (Inr (s', cs)) \<and>
     response = model_invoke e (queryModel e) [HumanMessage (query s) Map.empty] \<and>
     messages s' = messages s @ [HumanMessage (query s) Map.empty, response] \<and>
     documents s' = documents s \<and>
     cs = [ModelInvokeStructured (queryModel e) (ROUTER_SYSTEM_PROMPT e (query s)),
           ModelInvoke (queryModel e) [HumanMessage (query s) Map.empty]] \<and>
     (\<forall>q. RetrieverInvoke q \<notin> set cs) \<and>
     (\<forall>t. upd_documents (fst (answerQueryDirectly e t)) = None) \<and>
     (msg_type response = ''ai'' \<longrightarrow>
        map msg_type (drop (length (messages s)) (messages s')) = [''human'', ''ai''])"
proof -
  define s1 where "s1 = apply_update s (fst (checkQueryType e s))"
  have s1: "query s1 = query s" "documents s1 = documents s" "messages s1 = messages s"
    "route s1 = Some ''direct''"
    using assms by (simp_all add: s1_def checkQueryType_def apply_update_def Let_def)
  have n1: "run_node e N_checkQueryType s =
      (s1, [ModelInvokeStructured (queryModel e) (ROUTER_SYSTEM_PROMPT e (query s))])"
    by (simp add: run_node_def s1_def checkQueryType_def Let_def)
  have nx: "next_node N_checkQueryType s1 = Inr (Some N_directAnswer)"
    by (simp add: next_node_def routeQuery_def s1)
  have n2: "run_node e N_directAnswer s1 =
      (apply_update s1 (fst (answerQueryDirectly e s1)),
       [ModelInvoke (queryModel e) [HumanMessage (query s) Map.empty]])"
    by (simp add: run_node_def answerQueryDirectly_eq s1)
  have nx2: "next_node N_directAnswer t = Inr None" for t
    by (simp add: next_node_def)
  have run: "graph_invoke e s = Some (Inr (apply_update s1 (fst (answerQueryDirectly e s1)),
       [ModelInvokeStructured (queryModel e) (ROUTER_SYSTEM_PROMPT e (query s)),
        ModelInvoke (queryModel e) [HumanMessage (query s) Map.empty]]))"
    by (simp add: graph_invoke_def numeral_3_eq_3 n1 nx n2 nx2)
  show ?thesis
    unfolding run
    by (simp add: answerQueryDirectly_eq apply_update_def s1 HumanMessage_def)
qed

theorem direct_route_appends_two_turns_witness:
  "resp_route (model_invoke_structured example_env (queryModel example_env)
      (ROUTER_SYSTEM_PROMPT example_env (query example_state))) = ''direct'' \<and>
   (case graph_invoke example_env example_state of
      Some (Inr (s', cs)) \<Rightarrow>
        messages s' = [HumanMessage ''What is the capital of France?'' Map.empty,
                       AIMessage ''Paris'' Map.empty] \<and>
        documents s' = [] \<and>
        cs = [ModelInvokeStructured ''chat-model'' ''Classify: What is the capital of France?'',
              ModelInvoke ''chat-model''
                [HumanMessage ''What is the capital of France?'' Map.empty]]
    | _ \<Rightarrow> False)"
proof -
  have h: "resp_route (model_invoke_structured example_env (queryModel example_env)
      (ROUTER_SYSTEM_PROMPT example_env (query example_state))) = ''direct''"
    by (simp add: example_env_def)
  have v: "query example_state = ''What is the capital of France?''"
    "messages example_state = []" "documents example_state = []"
    "queryModel example_env = ''chat-model''"
    "ROUTER_SYSTEM_PROMPT example_env q = ''Classify: '' @ q"
    "model_invoke example_env m i = AIMessage ''Paris'' Map.empty" for m i q
    by (simp_all add: example_env_def example_state_def)
  from direct_route_appends_two_turns [OF h]
  obtain s' cs where "graph_invoke example_env example_state = Some (Inr (s', cs))"
    and "messages s' = messages example_state @
      [HumanMessage (query example_state) Map.empty,
       model_invoke example_env (queryModel example_env)
         [HumanMessage (query example_state) Map.empty]]"
    and "documents s' = documents example_state"
    and "cs = [ModelInvokeStructured (queryModel example_env)
                 (ROUTER_SYSTEM_PROMPT example_env (query example_state)),
               ModelInvoke (queryModel example_env)
                 [HumanMessage (query example_state) Map.empty]]"
    by blast
  then show ?thesis using h by (simp add: v)
qed

section \<open>The router node\<close>

lemma run_node_structured_irrelevant:
  "n \<noteq> N_checkQueryType \<Longrightarrow>
   run_node (e\<lparr>model_invoke_structured := g\<rparr>) n s = run_node e n s"
  by (cases n)
     (simp_all add: run_node_def retrieveDocuments_def generateResponse_def
        answerQueryDirectly_def)

lemma next_node_not_checkQueryType: "next_node n s \<noteq> Inr (Some N_checkQueryType)"
  by (cases n) (auto simp: next_node_def routeQuery_def split: option.splits sum.splits)

text \<open>Three nodes at most are run, so the fuel of \<open>graph_invoke\<close> never runs out.\<close>

lemma run_from_terminal:
  "n = N_generateResponse \<or> n = N_directAnswer \<Longrightarrow> run_from (Suc k) e n s \<noteq> None"
  by (auto simp: next_node_def split: prod.splits)

lemma run_from_retrieveDocuments:
  "run_from (Suc (Suc k)) e N_retrieveDocuments s \<noteq> None"
proof -
  obtain s' cs where r: "run_node e N_retrieveDocuments s = (s', cs)"
    by (cases "run_node e N_retrieveDocuments s")
  have g: "run_from (Suc k) e N_generateResponse s' \<noteq> None"
    by (rule run_from_terminal) simp
  have "run_from (Suc (Suc k)) e N_retrieveDocuments s =
     (case run_from (Suc k) e N_generateResponse s' of
        None \<Rightarrow> None
      | Some (Inl err) \<Rightarrow> Some (Inl err)
      | Some (Inr (s'', cs')) \<Rightarrow> Some (Inr (s'', cs @ cs')))"
    by (subst run_from.simps) (simp add: r next_node_def del: run_from.simps)
  with g show ?thesis
    by (auto split: option.splits sum.splits simp del: run_from.simps)
qed

lemma graph_invoke_returns: "graph_invoke e s \<noteq> None"
proof -
  obtain s' cs where r: "run_node e N_checkQueryType s = (s', cs)"
    by (cases "run_node e N_checkQueryType s")
  have t: "run_from 2 e n s' \<noteq> None" if "n \<noteq> N_checkQueryType" for n
    using that run_from_terminal [of n "Suc 0" e s'] run_from_retrieveDocuments [of 0 e s']
    by (cases n) (simp_all add: numeral_2_eq_2)
  show ?thesis
  proof (cases "next_node N_checkQueryType s'")
    case (Inl err)
    then show ?thesis by (simp add: graph_invoke_def numeral_3_eq_3 r)
  next
    case (Inr nx)
    show ?thesis
    proof (cases nx)
      case None
      with Inr show ?thesis by (simp add: graph_invoke_def numeral_3_eq_3 r)
    next
      case (Some n')
      with Inr have "n' \<noteq> N_checkQueryType"
        using next_node_not_checkQueryType [of N_checkQueryType s'] by auto
      then have "run_from 2 e n' s' \<noteq> None" by (rule t)
      with Inr Some show ?thesis
        by (auto simp: graph_invoke_def numeral_3_eq_3 numeral_2_eq_2 r
            split: option.splits sum.splits)
    qed
  qed
qed

lemma run_from_structured_irrelevant:
  "n \<noteq> N_checkQueryType \<Longrightarrow>
   run_from fuel (e\<lparr>model_invoke_structured := g\<rparr>) n s = run_from fuel e n s"
proof (induction fuel arbitrary: n s)
  case 0
  show ?case by simp
next
  case (Suc fuel)
  obtain s' cs where r: "run_node e n s = (s', cs)"
    by (cases "run_node e n s")
  have r': "run_node (e\<lparr>model_invoke_structured := g\<rparr>) n s = (s', cs)"
    using Suc.prems r by (simp add: run_node_structured_irrelevant)
  show ?case
  proof (cases "next_node n s'")
    case (Inl err)
    then show ?thesis by (simp add: r r')
  next
    case (Inr nx)
    show ?thesis
    proof (cases nx)
      case None
      with Inr show ?thesis by (simp add: r r')
    next
      case (Some n')
      with Inr have "n' \<noteq> N_checkQueryType"
        using next_node_not_checkQueryType [of n s'] by auto
      then have "run_from fuel (e\<lparr>model_invoke_structured := g\<rparr>) n' s' =
                 run_from fuel e n' s'"
        by (rule Suc.IH)
      with Inr Some show ?thesis by (simp add: r r')
    qed
  qed
qed

lemma checkQueryType_route_only:
  assumes "resp_route (g (queryModel e) (ROUTER_SYSTEM_PROMPT e (query s))) =
           resp_route (model_invoke_structured e (queryModel e)
             (ROUTER_SYSTEM_PROMPT e (query s)))"
  shows "checkQueryType (e\<lparr>model_invoke_structured := g\<rparr>) s = checkQueryType e s"
  using assms by (simp add: checkQueryType_def Let_def)

text \<open>
  Claim C9. The \<open>directAnswer\<close> field of the structured router response is not consumed.
  When a second router model \<open>g\<close> gives responses that agree with the first on \<open>route\<close>
  (and may differ in \<open>directAnswer\<close> in any way), the router node returns the same
  update and the same external call, and the whole graph run, which always returns,
  returns the same result.
\<close>

theorem directAnswer_not_consumed:
  assumes "\<forall>m p. resp_route (g m p) = resp_route (model_invoke_structured e m p)"
  shows "checkQueryType (e\<lparr>model_invoke_structured := g\<rparr>) s = checkQueryType e s \<and>
         graph_invoke (e\<lparr>model_invoke_structured := g\<rparr>) s = graph_invoke e s \<and>
         (\<exists>r. graph_invoke e s = Some r)"
proof -
  have c: "checkQueryType (e\<lparr>model_invoke_structured := g\<rparr>) s = checkQueryType e s"
    using assms by (simp add: checkQueryType_route_only)
  obtain s' cs where r: "run_node e N_checkQueryType s = (s', cs)"
    by (cases "run_node e N_checkQueryType s")
  have r': "run_node (e\<lparr>model_invoke_structured := g\<rparr>) N_checkQueryType s = (s', cs)"
    using r c by (simp add: run_node_def)
  have "run_from 3 (e\<lparr>model_invoke_structured := g\<rparr>) N_checkQueryType s =
        run_from 3 e N_checkQueryType s"
  proof (cases "next_node N_checkQueryType s'")
    case (Inl err)
    then show ?thesis by (simp add: numeral_3_eq_3 r r')
  next
    case (Inr nx)
    show ?thesis
    proof (cases nx)
      case None
      with Inr show ?thesis by (simp add: numeral_3_eq_3 r r')
    next
      case (Some n')
      with Inr have "n' \<noteq> N_checkQueryType"
        using next_node_not_checkQueryType [of N_checkQueryType s'] by auto
      then have "run_from 2 (e\<lparr>model_invoke_structured := g\<rparr>) n' s' = run_from 2 e n' s'"
        by (rule run_from_structured_irrelevant)
      with Inr Some show ?thesis by (simp add: numeral_3_eq_3 numeral_2_eq_2 r r')
    qed
  qed
  with c graph_invoke_returns [of e s] show ?thesis
    by (simp add: graph_invoke_def)
qed

theorem directAnswer_not_consumed_witness:
  "resp_directAnswer (\<lparr>resp_route = ''direct'', resp_directAnswer = Some ''Paris''\<rparr>) \<noteq>
     resp_directAnswer (model_invoke_structured example_env ''chat-model'' ''p'') \<and>
   checkQueryType
     (example_env\<lparr>model_invoke_structured :=
        (\<lambda>m p. \<lparr>resp_route = ''direct'', resp_directAnswer = Some ''Paris''\<rparr>)\<rparr>)
     example_state
   = checkQueryType example_env example_state \<and>
   graph_invoke
     (example_env\<lparr>model_invoke_structured :=
        (\<lambda>m p. \<lparr>resp_route = ''direct'', resp_directAnswer = Some ''Paris''\<rparr>)\<rparr>)
     example_state
   = graph_invoke example_env example_state"
proof -
  have h: "\<forall>m p. resp_route (\<lparr>resp_route = ''direct'', resp_directAnswer = Some ''Paris''\<rparr>) =
     resp_route (model_invoke_structured example_env m p)"
    by (simp add: example_env_def)
  have d: "resp_directAnswer (\<lparr>resp_route = ''direct'', resp_directAnswer = Some ''Paris''\<rparr>) \<noteq>
     resp_directAnswer (model_invoke_structured example_env ''chat-model'' ''p'')"
    by (simp add: example_env_def)
  from directAnswer_not_consumed
    [of "\<lambda>m p. \<lparr>resp_route = ''direct'', resp_directAnswer = Some ''Paris''\<rparr>"
        example_env example_state, OF h] d
  show ?thesis by blast
qed

end
